theory Spec2Isabelle
  imports Complex_Main
begin

section \<open>Values of a platform response\<close>

text \<open>
  The getters of \<^verbatim>\<open>checkoutShippingMethodGetters.ts\<close> receive whatever the API client
  hands them: the TypeScript annotation \<^verbatim>\<open>ShippingMethod\<close> is erased at run time. A value
  is therefore any JavaScript datum a parsed response can hold: \<^verbatim>\<open>undefined\<close>,
  \<^verbatim>\<open>null\<close>, a boolean, a number, a string, or a reference to a plain object or array
  living in the store. Objects and arrays are plain data: own data properties only, no
  accessor, proxy or function-valued property.

  Numbers are IEEE-754 doubles. A finite double is given by the rational it denotes
  (\<open>Finite 0\<close> is +0); next to the finite ones there are negative zero, the two
  infinities and NaN. Which rationals are doubles is said by \<open>is_double\<close> below.
\<close>

datatype jsnum = Finite rat | NegZero | PosInf | NegInf | NaN

type_synonym addr = nat

datatype jsval = Undefined | Null | Boolean bool | Num jsnum | Str string | Ref addr

datatype jsobj = Object "(string \<times> jsval) list" | Array "jsval list"

type_synonym heap = "addr \<Rightarrow> jsobj"

datatype error = TypeError

section \<open>Evaluation of the expressions the getters are made of\<close>

text \<open>
  A computation takes the store and returns either the exception thrown or the value,
  together with the store it leaves behind.
\<close>

definition return_js :: "'a \<Rightarrow> heap \<Rightarrow> (error + 'a) \<times> heap" where
  "return_js v h = (Inr v, h)"

definition throw_js :: "error \<Rightarrow> heap \<Rightarrow> (error + 'a) \<times> heap" where
  "throw_js e h = (Inl e, h)"

definition bind_js ::
  "(heap \<Rightarrow> (error + 'a) \<times> heap) \<Rightarrow> ('a \<Rightarrow> heap \<Rightarrow> (error + 'b) \<times> heap) \<Rightarrow>
   heap \<Rightarrow> (error + 'b) \<times> heap" where
  "bind_js m f h = (case m h of (Inl e, h') \<Rightarrow> (Inl e, h') | (Inr v, h') \<Rightarrow> f v h')"

text \<open>\<^verbatim>\<open>!v\<close> is true exactly on the falsy values: undefined, null, false, +0, -0, NaN
  and the empty string. Every object and array is truthy, the empty array too.\<close>

fun truthy :: "jsval \<Rightarrow> bool" where
  "truthy Undefined = False"
| "truthy Null = False"
| "truthy (Boolean b) = b"
| "truthy (Num n) = (n \<noteq> NaN \<and> n \<noteq> Finite 0 \<and> n \<noteq> NegZero)"
| "truthy (Str s) = (s \<noteq> [])"
| "truthy (Ref a) = True"

definition own_property :: "(string \<times> jsval) list \<Rightarrow> string \<Rightarrow> jsval" where
  "own_property ps k = (case map_of ps k of None \<Rightarrow> Undefined | Some v \<Rightarrow> v)"

text \<open>
  \<^verbatim>\<open>v.k\<close> for the property names the getters read (id, name, description, zoneRates,
  shippingRates, price, centAmount). None of them is a built-in property of objects,
  arrays, strings, numbers or booleans, so the read yields the own property of an object
  and undefined on everything else, except that reading from undefined or null throws a
  TypeError.
\<close>

fun get_member :: "string \<Rightarrow> jsval \<Rightarrow> heap \<Rightarrow> (error + jsval) \<times> heap" where
  "get_member k Undefined h = throw_js TypeError h"
| "get_member k Null h = throw_js TypeError h"
| "get_member k (Ref a) h =
     (case h a of
        Object ps \<Rightarrow> return_js (own_property ps k) h
      | Array xs \<Rightarrow> return_js Undefined h)"
| "get_member k v h = return_js Undefined h"

text \<open>
  \<^verbatim>\<open>v[0]\<close>: the first element of an array (undefined when there is none), the first
  character of a string, the property named 0 of an object, undefined on a number or a
  boolean, and a TypeError on undefined and null.
\<close>

fun get_first :: "jsval \<Rightarrow> heap \<Rightarrow> (error + jsval) \<times> heap" where
  "get_first Undefined h = throw_js TypeError h"
| "get_first Null h = throw_js TypeError h"
| "get_first (Ref a) h =
     (case h a of
        Object ps \<Rightarrow> return_js (own_property ps ''0'') h
      | Array xs \<Rightarrow> return_js (case xs of [] \<Rightarrow> Undefined | x # _ \<Rightarrow> x) h)"
| "get_first (Str s) h = return_js (case s of [] \<Rightarrow> Undefined | c # _ \<Rightarrow> Str [c]) h"
| "get_first v h = return_js Undefined h"

text \<open>
  The left operand of \<^verbatim>\<open>/\<close> is converted to a number. On undefined, null, booleans and
  numbers the conversion is fixed. On a string (parsing a numeric literal) and on an
  object or array (conversion to a primitive first, which can throw) it is the work of the
  JavaScript runtime; it is the parameter \<open>coerce\<close>, which reads the store and yields a
  number or an exception.
\<close>

fun to_number ::
  "(heap \<Rightarrow> jsval \<Rightarrow> error + jsnum) \<Rightarrow> jsval \<Rightarrow> heap \<Rightarrow> (error + jsnum) \<times> heap" where
  "to_number coerce Undefined h = return_js NaN h"
| "to_number coerce Null h = return_js (Finite 0) h"
| "to_number coerce (Boolean b) h = return_js (Finite (if b then 1 else 0)) h"
| "to_number coerce (Num n) h = return_js n h"
| "to_number coerce v h = (coerce h v, h)"

subsection \<open>Division of doubles\<close>

text \<open>
  The quotient of two doubles is the exact quotient rounded to a double: to the nearest
  one, to the one with the even significand when two are equally near, to an infinity
  when the rounded magnitude reaches \<open>2 ^ 1024\<close>, and to a zero carrying the sign of the
  exact quotient when it underflows.

  \<open>floor_log2 n\<close> is the position of the leading bit of \<open>n \<ge> 1\<close>, and \<open>exponent x\<close> the
  \<open>e\<close> with \<open>2 ^ e \<le> x < 2 ^ (e + 1)\<close> for a positive rational \<open>x\<close>.
\<close>

fun floor_log2 :: "nat \<Rightarrow> nat" where
  "floor_log2 n = (if n < 2 then 0 else Suc (floor_log2 (n div 2)))"

declare floor_log2.simps [simp del]

definition exponent :: "rat \<Rightarrow> int" where
  "exponent x =
     (if 1 \<le> x then int (floor_log2 (nat \<lfloor>x\<rfloor>))
      else - int (Suc (floor_log2 (nat \<lceil>1 / x\<rceil> - 1))))"

definition round_half_even :: "rat \<Rightarrow> int" where
  "round_half_even y =
     (let n = \<lfloor>y\<rfloor>; f = y - of_int n
      in if f < 1 / 2 then n else if 1 / 2 < f then n + 1 else if even n then n else n + 1)"

text \<open>
  A positive \<open>x\<close> is rounded to a multiple of the spacing of the doubles around it: 52
  binary places below its leading bit, and never finer than \<open>2 ^ - 1074\<close>, the spacing
  of the subnormal doubles.
\<close>

definition round_magnitude :: "rat \<Rightarrow> rat" where
  "round_magnitude x =
     (let u = 2 powi (max (exponent x) (- 1022) - 52)
      in of_int (round_half_even (x / u)) * u)"

definition round_double :: "rat \<Rightarrow> jsnum" where
  "round_double x =
     (if x = 0 then Finite 0
      else if 0 < x then
        (let r = round_magnitude x in if 2 powi 1024 \<le> r then PosInf else Finite r)
      else
        (let r = round_magnitude (- x)
         in if 2 powi 1024 \<le> r then NegInf else if r = 0 then NegZero else Finite (- r)))"

text \<open>\<^verbatim>\<open>n / 100\<close> on a number.\<close>

fun div100 :: "jsnum \<Rightarrow> jsnum" where
  "div100 (Finite q) = round_double (q / 100)"
| "div100 NegZero = NegZero"
| "div100 PosInf = PosInf"
| "div100 NegInf = NegInf"
| "div100 NaN = NaN"

section \<open>The getters\<close>

definition getShippingMethods :: "jsval \<Rightarrow> heap \<Rightarrow> (error + jsval) \<times> heap" where
  "getShippingMethods methods = return_js methods"

text \<open>\<^verbatim>\<open>method?.id\<close>: undefined when the method is null or undefined, the read otherwise.\<close>

definition getMethodId :: "jsval \<Rightarrow> heap \<Rightarrow> (error + jsval) \<times> heap" where
  "getMethodId method =
     (if method = Null \<or> method = Undefined then return_js Undefined
      else get_member ''id'' method)"

definition getMethodName :: "jsval \<Rightarrow> heap \<Rightarrow> (error + jsval) \<times> heap" where
  "getMethodName method = get_member ''name'' method"

definition getMethodDescription :: "jsval \<Rightarrow> heap \<Rightarrow> (error + jsval) \<times> heap" where
  "getMethodDescription method = get_member ''description'' method"

text \<open>
  The guard reads \<^verbatim>\<open>method.zoneRates\<close> once, the return statement reads it again.
\<close>

definition getMethodPrice ::
  "(heap \<Rightarrow> jsval \<Rightarrow> error + jsnum) \<Rightarrow> jsval \<Rightarrow> heap \<Rightarrow> (error + jsval) \<times> heap" where
  "getMethodPrice coerce method =
     (if \<not> truthy method then return_js Null
      else bind_js (get_member ''zoneRates'' method) (\<lambda>guarded.
        if \<not> truthy guarded then return_js Null
        else
          bind_js (get_member ''zoneRates'' method) (\<lambda>zoneRates.
          bind_js (get_first zoneRates) (\<lambda>zoneRate.
          bind_js (get_member ''shippingRates'' zoneRate) (\<lambda>shippingRates.
          bind_js (get_first shippingRates) (\<lambda>shippingRate.
          bind_js (get_member ''price'' shippingRate) (\<lambda>price.
          bind_js (get_member ''centAmount'' price) (\<lambda>centAmount.
          bind_js (to_number coerce centAmount) (\<lambda>n.
          return_js (Num (div100 n)))))))))))"

definition isMethodDefault :: "jsval \<Rightarrow> heap \<Rightarrow> (error + jsval) \<times> heap" where
  "isMethodDefault method = return_js (Boolean False)"

section \<open>Kinds of result\<close>

text \<open>\<^verbatim>\<open>typeof v === 'number'\<close>.\<close>

fun is_number :: "jsval \<Rightarrow> bool" where
  "is_number (Num n) = True"
| "is_number v = False"

text \<open>An outcome without error handling: an exception, or the value undefined.\<close>

definition throws_or_undefined :: "(error + jsval) \<times> heap \<Rightarrow> bool" where
  "throws_or_undefined r = (case fst r of Inl e \<Rightarrow> True | Inr v \<Rightarrow> v = Undefined)"

text \<open>A primitive is a value that is not a reference to an object or array.\<close>

fun is_primitive :: "jsval \<Rightarrow> bool" where
  "is_primitive (Ref a) = False"
| "is_primitive v = True"

text \<open>A primitive or a record: a value that is not a reference to an array.\<close>

definition primitive_or_record :: "heap \<Rightarrow> jsval \<Rightarrow> bool" where
  "primitive_or_record h v =
     (case v of
        Ref a \<Rightarrow> (case h a of Object ps \<Rightarrow> True | Array xs \<Rightarrow> False)
      | _ \<Rightarrow> True)"

section \<open>What an input holds\<close>

text \<open>
  The words in which the behaviour of the getters on arbitrary input is stated. A value
  is nullish when it is null or undefined. What a value holds under a name is the own
  property of that name when the value is an object that has one, and undefined in every
  other case; what it holds first is its element, character or property 0.
\<close>

definition nullish :: "jsval \<Rightarrow> bool" where
  "nullish v = (v = Null \<or> v = Undefined)"

fun held :: "heap \<Rightarrow> jsval \<Rightarrow> string \<Rightarrow> jsval" where
  "held h (Ref a) k = (case h a of Object ps \<Rightarrow> own_property ps k | Array xs \<Rightarrow> Undefined)"
| "held h v k = Undefined"

fun held_first :: "heap \<Rightarrow> jsval \<Rightarrow> jsval" where
  "held_first h (Ref a) =
     (case h a of
        Object ps \<Rightarrow> own_property ps ''0''
      | Array xs \<Rightarrow> (case xs of [] \<Rightarrow> Undefined | x # _ \<Rightarrow> x))"
| "held_first h (Str s) = (case s of [] \<Rightarrow> Undefined | c # _ \<Rightarrow> Str [c])"
| "held_first h v = Undefined"

section \<open>The doubles among the rationals\<close>

text \<open>
  A double is a signed significand of at most 53 bits scaled by a power of two between
  \<open>2 ^ - 1074\<close> and \<open>2 ^ 971\<close>. A double is nearest to \<open>x\<close> when no double is nearer.
  The rational a finite number denotes is that of \<open>Finite\<close>, and 0 for negative zero.
\<close>

definition is_double :: "rat \<Rightarrow> bool" where
  "is_double x =
     (\<exists>m e. \<bar>m\<bar> < 2 ^ 53 \<and> - 1074 \<le> e \<and> e \<le> 971 \<and> x = of_int m * 2 powi e)"

definition nearest_double :: "rat \<Rightarrow> rat \<Rightarrow> bool" where
  "nearest_double x r = (is_double r \<and> (\<forall>d. is_double d \<longrightarrow> \<bar>r - x\<bar> \<le> \<bar>d - x\<bar>))"

fun finite_value :: "jsnum \<Rightarrow> rat option" where
  "finite_value (Finite q) = Some q"
| "finite_value NegZero = Some 0"
| "finite_value n = None"

section \<open>The part of the store an argument gives access to\<close>

text \<open>
  The values stored in an object or array, and the addresses reachable from a value by
  following references through them. Two stores agree below a value when they hold the
  same object at every address reachable from it in the first store.
\<close>

fun children :: "jsobj \<Rightarrow> jsval list" where
  "children (Object ps) = map snd ps"
| "children (Array xs) = xs"

inductive_set reach :: "heap \<Rightarrow> jsval \<Rightarrow> addr set" for h :: heap and v :: jsval where
  root: "v = Ref a \<Longrightarrow> a \<in> reach h v"
| step: "a \<in> reach h v \<Longrightarrow> Ref b \<in> set (children (h a)) \<Longrightarrow> b \<in> reach h v"

definition agree :: "heap \<Rightarrow> heap \<Rightarrow> jsval \<Rightarrow> bool" where
  "agree h h' v = (\<forall>a\<in>reach h v. h' a = h a)"

text \<open>
  What is asked of the runtime's number conversion: its result depends on the operand and
  on the objects reachable from the operand, on nothing else in the store.
\<close>

definition reads_operand_only :: "(heap \<Rightarrow> jsval \<Rightarrow> error + jsnum) \<Rightarrow> bool" where
  "reads_operand_only coerce = (\<forall>h h' v. agree h h' v \<longrightarrow> coerce h' v = coerce h v)"

section \<open>Fixtures\<close>

text \<open>A runtime whose conversion of strings and objects always yields NaN.\<close>

definition coerce_nan :: "heap \<Rightarrow> jsval \<Rightarrow> error + jsnum" where
  "coerce_nan h v = Inr NaN"

text \<open>
  A store holding one shipping method at address 0, priced at 1000 cents, a method with
  an empty list of zone rates at address 6, a method whose only zone rate has an empty
  list of shipping rates at address 8, a method priced at 1 cent at address 12, a method
  with an id and a name but no zone rates at address 18, a zone rate whose only shipping
  rate has a price without centAmount inside the method at address 21, and the list of
  all these methods at address 20. Every other address holds an empty object.
\<close>

definition fixture :: heap where
  "fixture a =
     (if a = 0 then Object [(''id'', Str ''m1''), (''name'', Str ''Standard''),
                            (''description'', Str ''Three days''), (''zoneRates'', Ref 1)]
      else if a = 1 then Array [Ref 2]
      else if a = 2 then Object [(''shippingRates'', Ref 3)]
      else if a = 3 then Array [Ref 4]
      else if a = 4 then Object [(''price'', Ref 5)]
      else if a = 5 then Object [(''centAmount'', Num (Finite 1000))]
      else if a = 6 then Object [(''id'', Str ''m2''), (''zoneRates'', Ref 7)]
      else if a = 7 then Array []
      else if a = 8 then Object [(''id'', Str ''m3''), (''zoneRates'', Ref 9)]
      else if a = 9 then Array [Ref 10]
      else if a = 10 then Object [(''shippingRates'', Ref 7)]
      else if a = 12 then Object [(''id'', Str ''m4''), (''zoneRates'', Ref 13)]
      else if a = 13 then Array [Ref 14]
      else if a = 14 then Object [(''shippingRates'', Ref 15)]
      else if a = 15 then Array [Ref 16]
      else if a = 16 then Object [(''price'', Ref 17)]
      else if a = 17 then Object [(''centAmount'', Num (Finite 1))]
      else if a = 18 then Object [(''id'', Str ''m5''), (''name'', Str ''Pickup'')]
      else if a = 20 then Array [Ref 0, Ref 6, Ref 8, Ref 12, Ref 18, Ref 21]
      else if a = 21 then Object [(''id'', Str ''m6''), (''zoneRates'', Ref 22)]
      else if a = 22 then Array [Ref 23]
      else if a = 23 then Object [(''shippingRates'', Ref 24)]
      else if a = 24 then Array [Ref 25]
      else if a = 25 then Object [(''price'', Ref 26)]
      else Object [])"

text \<open>The same store with another object at address 6, which the method at address 0
  does not reach.\<close>

definition fixture_elsewhere :: heap where
  "fixture_elsewhere a = (if a = 6 then Array [Ref 0] else fixture a)"

section \<open>Rounding to a double\<close>

text \<open>
  The rounding of the division is correct: what \<open>round_double\<close> returns, when it is not
  an infinity, is a double nearest to its argument, and a double is rounded to itself.
\<close>

lemma floor_log2_bounds:
  "1 \<le> n \<Longrightarrow> 2 ^ floor_log2 n \<le> n \<and> n < 2 ^ Suc (floor_log2 n)"
proof (induction n rule: floor_log2.induct)
  case (1 n)
  show ?case
  proof (cases "n < 2")
    case True
    with "1.prems" show ?thesis by (simp add: floor_log2.simps)
  next
    case False
    then have "1 \<le> n div 2" by simp
    with "1.IH" False
    have "2 ^ floor_log2 (n div 2) \<le> n div 2" and "n div 2 < 2 ^ Suc (floor_log2 (n div 2))"
      by simp_all
    moreover have "floor_log2 n = Suc (floor_log2 (n div 2))"
      using False by (subst floor_log2.simps) simp
    ultimately show ?thesis by simp linarith
  qed
qed

lemma exponent_bounds:
  assumes "0 < x"
  shows "2 powi exponent x \<le> x" and "x < 2 powi (exponent x + 1)"
proof -
  have "2 powi exponent x \<le> x \<and> x < 2 powi (exponent x + 1)"
  proof (cases "1 \<le> x")
    case True
    define n where "n = nat \<lfloor>x\<rfloor>"
    from True have n1: "1 \<le> n" by (simp add: n_def le_floor_iff le_nat_iff)
    have ex: "exponent x = int (floor_log2 n)" using True by (simp add: exponent_def n_def)
    from floor_log2_bounds [OF n1]
    have lo: "2 ^ floor_log2 n \<le> n" and hi: "n < 2 ^ Suc (floor_log2 n)" by simp_all
    have "0 \<le> \<lfloor>x\<rfloor>" using True by simp
    then have "(of_nat n :: rat) = of_int \<lfloor>x\<rfloor>" by (simp add: n_def)
    then have nx: "of_nat n \<le> x" "x < of_nat n + 1"
      by (simp_all) linarith
    from lo have "(2::rat) ^ floor_log2 n \<le> of_nat n"
      by (metis of_nat_le_iff of_nat_numeral of_nat_power)
    from this nx(1) have "(2::rat) ^ floor_log2 n \<le> x" by (rule order_trans)
    then have a: "2 powi exponent x \<le> x" by (simp add: ex)
    from hi have "n + 1 \<le> 2 ^ Suc (floor_log2 n)" by simp
    then have "(of_nat (n + 1) :: rat) \<le> of_nat (2 ^ Suc (floor_log2 n))"
      by (simp only: of_nat_le_iff)
    then have "(of_nat n :: rat) + 1 \<le> 2 ^ Suc (floor_log2 n)" by simp
    with nx have "x < 2 ^ Suc (floor_log2 n)" by linarith
    moreover have "exponent x + 1 = int (Suc (floor_log2 n))" by (simp add: ex)
    ultimately have b: "x < 2 powi (exponent x + 1)" by (simp only: power_int_of_nat)
    from a b show ?thesis ..
  next
    case False
    define y where "y = 1 / x"
    define m where "m = nat \<lceil>y\<rceil> - 1"
    from False assms have y1: "1 < y" by (simp add: y_def)
    then have "1 < \<lceil>y\<rceil>" by (simp add: less_ceiling_iff)
    then have c2: "2 \<le> \<lceil>y\<rceil>" by simp
    then have m1: "1 \<le> m" unfolding m_def by linarith
    have ex: "exponent x = - int (Suc (floor_log2 m))"
      using False by (simp add: exponent_def m_def y_def)
    from floor_log2_bounds [OF m1]
    have lo: "2 ^ floor_log2 m \<le> m" and hi: "m < 2 ^ Suc (floor_log2 m)" by simp_all
    have "int m = \<lceil>y\<rceil> - 1" unfolding m_def using c2 by linarith
    then have rm: "(of_nat m :: rat) = of_int \<lceil>y\<rceil> - 1"
      by (metis of_int_of_nat_eq of_int_diff of_int_1)
    have my: "of_nat m < y" "y \<le> of_nat m + 1"
      using rm ceiling_correct [of y] by simp_all
    from lo have "(2::rat) ^ floor_log2 m \<le> of_nat m"
      by (metis of_nat_le_iff of_nat_numeral of_nat_power)
    from this my(1) have ylo: "2 ^ floor_log2 m < y" by (rule le_less_trans)
    from hi have "m + 1 \<le> 2 ^ Suc (floor_log2 m)" by simp
    then have "(of_nat (m + 1) :: rat) \<le> of_nat (2 ^ Suc (floor_log2 m))"
      by (simp only: of_nat_le_iff)
    then have "(of_nat m :: rat) + 1 \<le> 2 ^ Suc (floor_log2 m)" by simp
    with my have yhi: "y \<le> 2 ^ Suc (floor_log2 m)" by linarith
    have yx: "1 / y = x" using assms by (simp add: y_def)
    have ypos: "0 < y" using y1 by simp
    have pe: "(2::rat) powi exponent x = 1 / 2 ^ Suc (floor_log2 m)"
      unfolding ex by (simp only: power_int_minus_divide power_int_of_nat)
    have "1 / 2 ^ Suc (floor_log2 m) \<le> 1 / y"
      using yhi ypos by (intro divide_left_mono) simp_all
    then have a: "2 powi exponent x \<le> x" by (simp only: pe yx)
    have "exponent x + 1 = - int (floor_log2 m)" by (simp add: ex)
    then have pe1: "(2::rat) powi (exponent x + 1) = 1 / 2 ^ floor_log2 m"
      by (simp only: power_int_minus_divide power_int_of_nat)
    have "1 / y < 1 / 2 ^ floor_log2 m"
      using ylo ypos by (intro divide_strict_left_mono) simp_all
    then have b: "x < 2 powi (exponent x + 1)" by (simp only: pe1 yx)
    from a b show ?thesis ..
  qed
  then show "2 powi exponent x \<le> x" and "x < 2 powi (exponent x + 1)" by simp_all
qed

lemma round_half_even_nearest:
  "\<bar>of_int (round_half_even y) - y\<bar> \<le> \<bar>of_int k - y\<bar>"
proof -
  define n where "n = \<lfloor>y\<rfloor>"
  define f where "f = y - of_int n"
  have f: "0 \<le> f" "f < 1" by (simp_all add: f_def n_def) linarith
  have y: "y = of_int n + f" by (simp add: f_def)
  have r: "round_half_even y = n \<and> f \<le> 1 / 2 \<or> round_half_even y = n + 1 \<and> 1 / 2 \<le> f"
    by (auto simp: round_half_even_def Let_def n_def f_def)
  show ?thesis
  proof (cases "k \<le> n")
    case True
    then have "(of_int k :: rat) \<le> of_int n" by simp
    with r f show ?thesis unfolding y by auto
  next
    case False
    then have "n + 1 \<le> k" by simp
    then have "(of_int n :: rat) + 1 \<le> of_int k"
      by (metis of_int_le_iff of_int_add of_int_1)
    with r f show ?thesis unfolding y by auto
  qed
qed

lemma two_powi_split:
  "(2::rat) powi (a + b) = 2 powi a * 2 powi b"
  by (rule power_int_add) simp

lemma two_powi_cong: "a = b \<Longrightarrow> (2::rat) powi a = 2 powi b"
  by simp

lemma two_powi_nonneg: "0 \<le> j \<Longrightarrow> (2::rat) powi j = of_int (2 ^ nat j)"
  by (simp add: power_int_nonneg_exp)

lemma two_powi_mono: "a \<le> b \<Longrightarrow> (2::rat) powi a \<le> 2 powi b"
  by (rule power_int_increasing) simp_all

lemma two_powi_less_cancel: "(2::rat) powi a < 2 powi b \<Longrightarrow> a < b"
  using two_powi_mono [of b a] by (cases "a < b") auto

lemma round_magnitude_facts:
  assumes "0 < x"
  defines "E \<equiv> max (exponent x) (- 1022)"
  defines "u \<equiv> (2::rat) powi (E - 52)"
  defines "n \<equiv> round_half_even (x / u)"
  shows "round_magnitude x = of_int n * u" and "0 < u" and "- 1022 \<le> E"
    and "x < 2 powi (E + 1)" and "exponent x < E \<or> 2 powi E \<le> x"
    and "\<bar>of_int n * u - x\<bar> \<le> \<bar>of_int k * u - x\<bar>"
proof -
  show rm: "round_magnitude x = of_int n * u"
    by (simp add: round_magnitude_def Let_def n_def u_def E_def)
  show u: "0 < u" by (simp add: u_def)
  show "- 1022 \<le> E" by (simp add: E_def)
  have "exponent x + 1 \<le> E + 1" by (simp add: E_def)
  then have "(2::rat) powi (exponent x + 1) \<le> 2 powi (E + 1)" by (rule two_powi_mono)
  with exponent_bounds(2) [OF assms(1)] show "x < 2 powi (E + 1)" by simp
  show "exponent x < E \<or> 2 powi E \<le> x"
  proof (cases "exponent x < E")
    case True
    then show ?thesis by (rule disjI1)
  next
    case False
    then have "exponent x = E" unfolding E_def by linarith
    with exponent_bounds(1) [OF assms(1)] have "2 powi E \<le> x" by (simp only:)
    then show ?thesis by (rule disjI2)
  qed
  have "\<bar>of_int n - x / u\<bar> \<le> \<bar>of_int k - x / u\<bar>"
    unfolding n_def by (rule round_half_even_nearest)
  then have "\<bar>of_int n - x / u\<bar> * u \<le> \<bar>of_int k - x / u\<bar> * u"
    using u by (simp add: mult_right_mono)
  moreover have "\<bar>of_int j - x / u\<bar> * u = \<bar>of_int j * u - x\<bar>" for j
  proof -
    have "\<bar>of_int j - x / u\<bar> * u = \<bar>of_int j - x / u\<bar> * \<bar>u\<bar>" using u by simp
    also have "\<dots> = \<bar>(of_int j - x / u) * u\<bar>" by (simp add: abs_mult)
    also have "(of_int j - x / u) * u = of_int j * u - x" using u by (simp add: field_simps)
    finally show ?thesis .
  qed
  ultimately show "\<bar>of_int n * u - x\<bar> \<le> \<bar>of_int k * u - x\<bar>" by simp
qed

lemma round_magnitude_nearest:
  assumes "0 < x" and "is_double d"
  shows "\<bar>round_magnitude x - x\<bar> \<le> \<bar>d - x\<bar>"
proof -
  define E where "E = max (exponent x) (- 1022)"
  define u where "u = (2::rat) powi (E - 52)"
  define n where "n = round_half_even (x / u)"
  note f = round_magnitude_facts [OF assms(1), folded E_def, folded u_def, folded n_def]
  from assms(2) obtain m e where m: "\<bar>m\<bar> < 2 ^ 53" and e: "- 1074 \<le> e" "e \<le> 971"
    and d: "d = of_int m * 2 powi e"
    unfolding is_double_def by blast
  show ?thesis
  proof (cases "E - 52 \<le> e")
    case True
    have "(2::rat) powi e = 2 powi ((e - (E - 52)) + (E - 52))" by (rule two_powi_cong) simp
    also have "\<dots> = 2 powi (e - (E - 52)) * u"
      unfolding u_def by (rule two_powi_split)
    also have "(2::rat) powi (e - (E - 52)) = of_int (2 ^ nat (e - (E - 52)))"
      using True by (intro two_powi_nonneg) simp
    finally have "d = of_int (m * 2 ^ nat (e - (E - 52))) * u"
      by (simp add: d)
    with f(6) [of "m * 2 ^ nat (e - (E - 52))"] show ?thesis by (simp add: f(1))
  next
    case False
    then have eE: "e \<le> E - 53" by simp
    with e have "- 1022 < E" by simp
    with f(5) have lo: "2 powi E \<le> x" by (auto simp: E_def max_def)
    have "(2::rat) powi E = 2 powi (52 + (E - 52))" by (rule two_powi_cong) simp
    also have "\<dots> = 2 powi 52 * u" unfolding u_def by (rule two_powi_split)
    finally have pE: "(2::rat) powi E = of_int (2 ^ 52) * u" by simp
    have "d \<le> \<bar>d\<bar>" by simp
    also have "\<bar>d\<bar> = of_int \<bar>m\<bar> * 2 powi e" by (simp add: d abs_mult)
    also have "\<dots> < of_int (2 ^ 53) * 2 powi e"
      using m by (intro mult_strict_right_mono) (simp_all only: of_int_less_iff zero_less_power_int zero_less_numeral)
    also have "\<dots> \<le> of_int (2 ^ 53) * 2 powi (E - 53)"
      using eE by (intro mult_left_mono two_powi_mono) simp_all
    also have "\<dots> = 2 powi (53 + (E - 53))"
      by (simp only: two_powi_split) simp
    also have "\<dots> = 2 powi E" by (rule two_powi_cong) simp
    finally have dE: "d < 2 powi E" .
    from f(6) [of "2 ^ 52"] have "\<bar>round_magnitude x - x\<bar> \<le> \<bar>2 powi E - x\<bar>"
      by (simp only: f(1) pE)
    with lo dE show ?thesis by linarith
  qed
qed

lemma round_magnitude_nonneg:
  assumes "0 < x"
  shows "0 \<le> round_magnitude x"
proof -
  define E where "E = max (exponent x) (- 1022)"
  define u where "u = (2::rat) powi (E - 52)"
  define n where "n = round_half_even (x / u)"
  note f = round_magnitude_facts [OF assms(1), folded E_def, folded u_def, folded n_def]
  have "0 \<le> x / u" using assms f(2) by simp
  then have "0 \<le> \<lfloor>x / u\<rfloor>" by simp
  moreover have "\<lfloor>x / u\<rfloor> \<le> n"
    by (auto simp: n_def round_half_even_def Let_def)
  ultimately have "0 \<le> n" by (rule order_trans)
  then show ?thesis using f(2) by (simp add: f(1))
qed

lemma round_magnitude_is_double:
  assumes "0 < x" and "round_magnitude x < 2 powi 1024"
  shows "is_double (round_magnitude x)"
proof -
  define E where "E = max (exponent x) (- 1022)"
  define u where "u = (2::rat) powi (E - 52)"
  define n where "n = round_half_even (x / u)"
  note f = round_magnitude_facts [OF assms(1), folded E_def, folded u_def, folded n_def]
  have n0: "0 \<le> n"
    using round_magnitude_nonneg [OF assms(1)] f(2) by (simp add: f(1) zero_le_mult_iff)
  have "(2::rat) powi (E + 1) = 2 powi (53 + (E - 52))" by (rule two_powi_cong) simp
  also have "\<dots> = 2 powi 53 * u" unfolding u_def by (rule two_powi_split)
  finally have pE1: "(2::rat) powi (E + 1) = of_int (2 ^ 53) * u" by simp
  have "(2::rat) powi E = 2 powi (52 + (E - 52))" by (rule two_powi_cong) simp
  also have "\<dots> = 2 powi 52 * u" unfolding u_def by (rule two_powi_split)
  finally have pE: "(2::rat) powi E = of_int (2 ^ 52) * u" by simp
  from f(6) [of "2 ^ 53"] f(4) have "of_int n * u \<le> of_int (2 ^ 53) * u"
    unfolding pE1 by linarith
  then have "(of_int n :: rat) \<le> of_int (2 ^ 53)" using f(2) by simp
  then have n53: "n \<le> 2 ^ 53" by (simp only: of_int_le_iff)
  have E1023: "E \<le> 1023"
  proof (rule ccontr)
    assume "\<not> E \<le> 1023"
    then have big: "1024 \<le> E" by simp
    with f(5) have lo: "2 powi E \<le> x" by (auto simp: E_def max_def)
    from f(6) [of "2 ^ 52"] lo have "2 powi E \<le> of_int n * u"
      unfolding pE by linarith
    moreover have "(2::rat) powi 1024 \<le> 2 powi E" using big by (rule two_powi_mono)
    ultimately show False using assms(2) by (simp only: f(1))
  qed
  show ?thesis
  proof (cases "n = 2 ^ 53")
    case True
    then have r: "round_magnitude x = 2 powi (E + 1)" by (simp only: f(1) pE1)
    from assms(2) [unfolded r] have lt: "E + 1 < 1024" by (rule two_powi_less_cancel)
    have "(2::rat) powi (E + 1) = 2 powi (52 + (E - 51))" by (rule two_powi_cong) simp
    also have "\<dots> = 2 powi 52 * 2 powi (E - 51)" by (rule two_powi_split)
    also have "(2::rat) powi 52 = of_int (2 ^ 52)" by simp
    finally have eq: "round_magnitude x = of_int (2 ^ 52) * 2 powi (E - 51)"
      by (simp only: r)
    have b1: "\<bar>2 ^ 52 :: int\<bar> < 2 ^ 53" by simp
    have b2: "- 1074 \<le> E - 51" using f(3) by simp
    have b3: "E - 51 \<le> 971" using lt by simp
    from b1 b2 b3 eq show ?thesis unfolding is_double_def by blast
  next
    case False
    with n53 n0 have b1: "\<bar>n\<bar> < 2 ^ 53" by simp
    have b2: "- 1074 \<le> E - 52" using f(3) by simp
    have b3: "E - 52 \<le> 971" using E1023 by simp
    have eq: "round_magnitude x = of_int n * 2 powi (E - 52)" by (simp only: f(1) u_def)
    from b1 b2 b3 eq show ?thesis unfolding is_double_def by blast
  qed
qed

lemma is_double_zero: "is_double 0"
  unfolding is_double_def by (intro exI [of _ 0]) simp

lemma is_double_minus: "is_double d \<Longrightarrow> is_double (- d)"
proof -
  assume "is_double d"
  then obtain m e where "\<bar>m\<bar> < 2 ^ 53" "- 1074 \<le> e" "e \<le> 971" "d = of_int m * 2 powi e"
    unfolding is_double_def by blast
  then have "\<bar>- m\<bar> < 2 ^ 53 \<and> - 1074 \<le> e \<and> e \<le> 971 \<and> - d = of_int (- m) * 2 powi e"
    by simp
  then show ?thesis unfolding is_double_def by blast
qed

lemma is_double_two_powi_1023: "is_double (2 powi 1023)"
proof -
  have "(2::rat) powi 1023 = 2 powi (52 + 971)" by (rule two_powi_cong) simp
  also have "\<dots> = 2 powi 52 * 2 powi 971" by (rule two_powi_split)
  also have "(2::rat) powi 52 = of_int (2 ^ 52)" by simp
  finally have eq: "(2::rat) powi 1023 = of_int (2 ^ 52) * 2 powi 971" .
  have b1: "\<bar>2 ^ 52 :: int\<bar> < 2 ^ 53" by simp
  have b2: "- 1074 \<le> (971::int)" by simp
  have b3: "(971::int) \<le> 971" by simp
  from b1 b2 b3 eq show ?thesis unfolding is_double_def by blast
qed

lemma is_double_less:
  assumes "is_double d"
  shows "\<bar>d\<bar> < 2 powi 1024"
proof -
  from assms obtain m e where m: "\<bar>m\<bar> < 2 ^ 53" and e: "e \<le> 971" and d: "d = of_int m * 2 powi e"
    unfolding is_double_def by blast
  have "\<bar>d\<bar> = of_int \<bar>m\<bar> * 2 powi e" by (simp add: d abs_mult)
  also have "\<dots> < of_int (2 ^ 53) * 2 powi e"
    using m by (intro mult_strict_right_mono) (simp_all only: of_int_less_iff zero_less_power_int zero_less_numeral)
  also have "\<dots> \<le> of_int (2 ^ 53) * 2 powi 971"
    using e by (intro mult_left_mono two_powi_mono) simp_all
  also have "(of_int (2 ^ 53) :: rat) = 2 powi 53" by simp
  also have "(2::rat) powi 53 * 2 powi 971 = 2 powi (53 + 971)" by (rule two_powi_split [symmetric])
  also have "\<dots> = 2 powi 1024" by (rule two_powi_cong) simp
  finally show ?thesis .
qed

lemma round_magnitude_no_overflow:
  assumes "0 < x" and "x \<le> 2 powi 1023"
  shows "round_magnitude x < 2 powi 1024"
proof -
  from round_magnitude_nearest [OF assms(1) is_double_two_powi_1023] assms(2)
  have "round_magnitude x \<le> 2 powi 1023 + (2 powi 1023 - x)" by linarith
  also have "\<dots> < 2 powi 1023 + 2 powi 1023" using assms(1) by linarith
  also have "\<dots> = 2 powi 1023 * 2 powi 1" by simp
  also have "\<dots> = 2 powi (1023 + 1)" by (rule two_powi_split [symmetric])
  also have "\<dots> = 2 powi 1024" by (rule two_powi_cong) simp
  finally show ?thesis .
qed

lemma round_double_nearest:
  assumes "finite_value (round_double x) = Some r"
  shows "nearest_double x r"
proof -
  consider "x = 0" | "0 < x" | "x < 0" by linarith
  then show ?thesis
  proof cases
    case 1
    with assms have "r = 0" by (simp add: round_double_def)
    with 1 show ?thesis by (simp add: nearest_double_def is_double_zero)
  next
    case 2
    with assms have r: "r = round_magnitude x" and lt: "round_magnitude x < 2 powi 1024"
      by (simp_all only: round_double_def Let_def split: if_splits) (simp_all add: not_le)
    show ?thesis
      unfolding nearest_double_def r
      using round_magnitude_is_double [OF 2 lt] round_magnitude_nearest [OF 2] by blast
  next
    case 3
    then have p: "0 < - x" by simp
    from 3 assms have r: "r = - round_magnitude (- x)" and lt: "round_magnitude (- x) < 2 powi 1024"
      by (simp_all only: round_double_def Let_def split: if_splits) (auto simp: not_le)
    have "\<bar>r - x\<bar> \<le> \<bar>d - x\<bar>" if "is_double d" for d
    proof -
      from round_magnitude_nearest [OF p is_double_minus [OF that]]
      show ?thesis unfolding r by linarith
    qed
    moreover have "is_double r"
      unfolding r by (rule is_double_minus) (rule round_magnitude_is_double [OF p lt])
    ultimately show ?thesis unfolding nearest_double_def by blast
  qed
qed

lemma round_double_finite:
  assumes "\<bar>x\<bar> \<le> 2 powi 1023"
  shows "\<exists>r. finite_value (round_double x) = Some r"
proof -
  consider "x = 0" | "0 < x" | "x < 0" by linarith
  then show ?thesis
  proof cases
    case 1
    then show ?thesis by (simp add: round_double_def)
  next
    case 2
    with assms have "round_magnitude x < 2 powi 1024"
      by (intro round_magnitude_no_overflow) simp_all
    with 2 show ?thesis by (simp only: round_double_def Let_def) (simp add: not_le [symmetric])
  next
    case 3
    with assms have "round_magnitude (- x) < 2 powi 1024"
      by (intro round_magnitude_no_overflow) simp_all
    with 3 show ?thesis by (simp only: round_double_def Let_def) (auto simp: not_le [symmetric])
  qed
qed

lemma round_double_exact:
  assumes "is_double x"
  shows "round_double x = Finite x"
proof -
  consider "x = 0" | "0 < x" | "x < 0" by linarith
  then show ?thesis
  proof cases
    case 1
    then show ?thesis by (simp add: round_double_def)
  next
    case 2
    from round_magnitude_nearest [OF 2 assms] have r: "round_magnitude x = x" by simp
    from is_double_less [OF assms] 2 have "\<not> 2 powi 1024 \<le> x" by simp
    with 2 r show ?thesis by (simp only: round_double_def Let_def) simp
  next
    case 3
    then have p: "0 < - x" by simp
    from round_magnitude_nearest [OF p is_double_minus [OF assms]]
    have r: "round_magnitude (- x) = - x" by simp
    from is_double_less [OF assms] 3 have "\<not> 2 powi 1024 \<le> - x" by simp
    with 3 r show ?thesis by (simp only: round_double_def Let_def) simp
  qed
qed

lemma quotient_in_range:
  assumes "is_double c"
  shows "\<bar>c / 100\<bar> \<le> 2 powi 1023"
proof -
  have "\<bar>c / 100\<bar> = \<bar>c\<bar> / 100" by simp
  also have "\<dots> \<le> \<bar>c\<bar> / 2" by (simp add: field_simps)
  also have "\<dots> \<le> 2 powi 1024 / 2" using is_double_less [OF assms] by (simp only: divide_right_mono less_imp_le zero_le_numeral)
  also have "(2::rat) powi 1024 = 2 powi (1023 + 1)" by (rule two_powi_cong) simp
  also have "\<dots> = 2 powi 1023 * 2 powi 1" by (rule two_powi_split)
  finally show ?thesis by simp
qed

lemma div100_nearest:
  assumes "finite_value n = Some c" and "is_double c"
  shows "\<exists>r. finite_value (div100 n) = Some r \<and> nearest_double (c / 100) r"
proof (cases n)
  case (Finite q)
  with assms(1) have q: "q = c" by simp
  from round_double_finite [OF quotient_in_range [OF assms(2)]]
  obtain r where r: "finite_value (round_double (c / 100)) = Some r" ..
  from round_double_nearest [OF r] r show ?thesis by (auto simp: Finite q)
next
  case NegZero
  with assms(1) have "c = 0" by simp
  with NegZero show ?thesis by (simp add: nearest_double_def is_double_zero)
qed (use assms(1) in simp_all)

lemma nearest_double_exact:
  assumes "nearest_double x r" and "is_double x"
  shows "r = x"
proof -
  from assms have "\<bar>r - x\<bar> \<le> \<bar>x - x\<bar>" unfolding nearest_double_def by blast
  then show ?thesis by simp
qed

lemma round_double_ten: "round_double 10 = Finite 10"
  by (simp add: round_double_def round_magnitude_def exponent_def round_half_even_def
      floor_log2.simps Let_def)

lemma round_double_hundredth:
  "round_double (1 / 100) = Finite (5764607523034235 / 576460752303423488)"
  by code_simp

lemma is_double_int:
  assumes "\<bar>k\<bar> < 2 ^ 53"
  shows "is_double (of_int k)"
proof -
  have "(of_int k :: rat) = of_int k * 2 powi 0" by simp
  moreover have "- 1074 \<le> (0::int)" and "(0::int) \<le> 971" by simp_all
  ultimately show ?thesis unfolding is_double_def using assms by blast
qed

section \<open>Evaluation lemmas\<close>

lemma bind_js_Inr:
  "bind_js m f h = (Inr v, h') \<Longrightarrow> \<exists>w h1. m h = (Inr w, h1) \<and> f w h1 = (Inr v, h')"
  by (auto simp: bind_js_def split: prod.splits sum.splits)

lemma get_member_object:
  "h a = Object ps \<Longrightarrow> get_member k (Ref a) h = (Inr (own_property ps k), h)"
  by (simp add: return_js_def)

lemma get_first_array:
  "h a = Array xs \<Longrightarrow>
   get_first (Ref a) h = (Inr (case xs of [] \<Rightarrow> Undefined | x # _ \<Rightarrow> x), h)"
  by (simp add: return_js_def)

lemma fixture_price:
  "getMethodPrice coerce_nan (Ref 0) fixture = (Inr (Num (Finite 10)), fixture)"
  by (simp add: getMethodPrice_def bind_js_def fixture_def own_property_def return_js_def
      round_double_ten)

lemma fixture_price_one_cent:
  "getMethodPrice coerce_nan (Ref 12) fixture =
   (Inr (Num (Finite (5764607523034235 / 576460752303423488))), fixture)"
  by (simp add: getMethodPrice_def bind_js_def fixture_def own_property_def return_js_def
      round_double_hundredth)

subsection \<open>No expression writes the store\<close>

lemma get_member_frame: "snd (get_member k v h) = h"
  by (cases v) (auto simp: return_js_def throw_js_def split: jsobj.splits)

lemma get_first_frame: "snd (get_first v h) = h"
  by (cases v) (auto simp: return_js_def throw_js_def split: jsobj.splits)

lemma to_number_frame: "snd (to_number coerce v h) = h"
  by (cases v) (auto simp: return_js_def)

lemma return_js_frame: "snd (return_js v h) = h"
  by (simp add: return_js_def)

lemma bind_js_frame:
  assumes "\<And>h. snd (m h) = h" and "\<And>w h. snd (f w h) = h"
  shows "snd (bind_js m f h) = h"
proof (cases "m h")
  case (Pair r h1)
  with assms(1) [of h] have "h1 = h" by simp
  with Pair assms(2) show ?thesis
    by (cases r) (simp_all add: bind_js_def)
qed

lemma getMethodPrice_frame: "snd (getMethodPrice coerce method h) = h"
  unfolding getMethodPrice_def
  by (auto intro!: bind_js_frame
      simp: get_member_frame get_first_frame to_number_frame return_js_frame)

subsection \<open>The reads in terms of what the input holds\<close>

lemma get_member_held:
  "get_member k v h = (if nullish v then (Inl TypeError, h) else (Inr (held h v k), h))"
  by (cases v) (auto simp: nullish_def return_js_def throw_js_def split: jsobj.splits)

lemma get_first_held:
  "get_first v h = (if nullish v then (Inl TypeError, h) else (Inr (held_first h v), h))"
  by (cases v) (auto simp: nullish_def return_js_def throw_js_def split: jsobj.splits)

lemma truthy_not_nullish: "truthy v \<Longrightarrow> \<not> nullish v"
  by (cases v) (simp_all add: nullish_def)

lemma getMethodPrice_held:
  "getMethodPrice coerce method h =
     (let zoneRates = held h method ''zoneRates'';
          zoneRate = held_first h zoneRates;
          shippingRates = held h zoneRate ''shippingRates'';
          shippingRate = held_first h shippingRates;
          price = held h shippingRate ''price'';
          centAmount = held h price ''centAmount''
      in if \<not> truthy method \<or> \<not> truthy zoneRates then (Inr Null, h)
         else if nullish zoneRate \<or> nullish shippingRates \<or> nullish shippingRate \<or>
                 nullish price then (Inl TypeError, h)
         else (case fst (to_number coerce centAmount h) of
                 Inl e \<Rightarrow> (Inl e, h)
               | Inr n \<Rightarrow> (Inr (Num (div100 n)), h)))"
proof -
  have num: "bind_js (to_number coerce c) (\<lambda>n. return_js (Num (div100 n))) h =
      (case fst (to_number coerce c h) of
         Inl e \<Rightarrow> (Inl e, h)
       | Inr n \<Rightarrow> (Inr (Num (div100 n)), h))" for c
    using to_number_frame [of coerce c h]
    by (cases "to_number coerce c h") (auto simp: bind_js_def return_js_def split: sum.splits)
  have member: "bind_js (get_member k v) f h =
      (if nullish v then (Inl TypeError, h) else f (held h v k) h)"
    for k v and f :: "jsval \<Rightarrow> heap \<Rightarrow> (error + jsval) \<times> heap"
    by (simp add: bind_js_def get_member_held)
  have first: "bind_js (get_first v) f h =
      (if nullish v then (Inl TypeError, h) else f (held_first h v) h)"
    for v and f :: "jsval \<Rightarrow> heap \<Rightarrow> (error + jsval) \<times> heap"
    by (simp add: bind_js_def get_first_held)
  show ?thesis
    unfolding getMethodPrice_def
    by (simp add: member first num truthy_not_nullish return_js_def Let_def)
qed

subsection \<open>Every read stays below the argument\<close>

lemma reach_is_ref: "a \<in> reach h v \<Longrightarrow> \<exists>r. v = Ref r"
  by (induction rule: reach.induct) auto

lemma reach_child:
  assumes "Ref b \<in> set (children (h a))" and "x \<in> reach h (Ref b)"
  shows "x \<in> reach h (Ref a)"
  using assms(2)
proof (induction rule: reach.induct)
  case (root c)
  then have "c = b" by simp
  moreover have "a \<in> reach h (Ref a)" by (rule reach.root) simp
  ultimately show ?case using assms(1) by (auto intro: reach.step)
next
  case (step c d)
  then show ?case by (auto intro: reach.step)
qed

lemma agree_prim: "(\<And>r. v \<noteq> Ref r) \<Longrightarrow> agree h h' v"
  by (auto simp: agree_def dest: reach_is_ref)

lemma agree_root: "agree h h' (Ref a) \<Longrightarrow> h' a = h a"
  by (simp add: agree_def reach.root)

lemma agree_child:
  assumes "agree h h' (Ref a)" and "w \<in> set (children (h a))"
  shows "agree h h' w"
proof (cases w)
  case (Ref b)
  with assms show ?thesis
    unfolding agree_def by (blast intro: reach_child)
qed (auto simp: agree_def dest: reach_is_ref)

lemma own_property_child:
  "own_property ps k = Undefined \<or> own_property ps k \<in> snd ` set ps"
  by (auto simp: own_property_def split: option.splits dest!: map_of_SomeD
      intro: rev_image_eqI)

lemma get_member_agree:
  assumes "agree h h' v"
  shows "fst (get_member k v h') = fst (get_member k v h)"
  using assms
  by (cases v) (auto simp: return_js_def throw_js_def split: jsobj.splits dest!: agree_root)

lemma get_first_agree:
  assumes "agree h h' v"
  shows "fst (get_first v h') = fst (get_first v h)"
  using assms
  by (cases v) (auto simp: return_js_def throw_js_def split: jsobj.splits dest!: agree_root)

lemma get_member_result_agree:
  assumes "agree h h' v" and "get_member k v h = (Inr w, h1)"
  shows "agree h h' w"
proof (cases v)
  case (Ref a)
  show ?thesis
  proof (cases "h a")
    case (Object ps)
    with Ref assms(2) have w: "w = own_property ps k" by (simp add: return_js_def)
    from own_property_child [of ps k] show ?thesis
    proof
      assume "own_property ps k = Undefined"
      with w show ?thesis by (simp add: agree_prim)
    next
      assume "own_property ps k \<in> snd ` set ps"
      with w Object have "w \<in> set (children (h a))" by simp
      with assms(1) Ref show ?thesis by (blast intro: agree_child)
    qed
  next
    case (Array xs)
    with Ref assms(2) show ?thesis by (simp add: return_js_def agree_prim)
  qed
qed (use assms(2) in \<open>auto simp: return_js_def throw_js_def agree_prim\<close>)

lemma get_first_result_agree:
  assumes "agree h h' v" and "get_first v h = (Inr w, h1)"
  shows "agree h h' w"
proof (cases v)
  case (Ref a)
  show ?thesis
  proof (cases "h a")
    case (Object ps)
    with Ref assms(2) have w: "w = own_property ps ''0''" by (simp add: return_js_def)
    from own_property_child [of ps "''0''"] show ?thesis
    proof
      assume "own_property ps ''0'' = Undefined"
      with w show ?thesis by (simp add: agree_prim)
    next
      assume "own_property ps ''0'' \<in> snd ` set ps"
      with w Object have "w \<in> set (children (h a))" by simp
      with assms(1) Ref show ?thesis by (blast intro: agree_child)
    qed
  next
    case (Array xs)
    show ?thesis
    proof (cases xs)
      case Nil
      with Array Ref assms(2) show ?thesis by (simp add: return_js_def agree_prim)
    next
      case (Cons x ys)
      with Array Ref assms(2) have "w \<in> set (children (h a))" by (simp add: return_js_def)
      with assms(1) Ref show ?thesis by (blast intro: agree_child)
    qed
  qed
next
  case (Str s)
  with assms(2) show ?thesis
    by (cases s) (auto simp: return_js_def agree_prim)
qed (use assms(2) in \<open>auto simp: return_js_def throw_js_def agree_prim\<close>)

lemma to_number_agree:
  assumes "reads_operand_only coerce" and "agree h h' v"
  shows "fst (to_number coerce v h') = fst (to_number coerce v h)"
  using assms by (cases v) (auto simp: return_js_def reads_operand_only_def)

lemma bind_js_agree:
  assumes "fst (m h') = fst (m h)" and "snd (m h) = h" and "snd (m h') = h'"
    and "\<And>w. m h = (Inr w, h) \<Longrightarrow> fst (f w h') = fst (f w h)"
  shows "fst (bind_js m f h') = fst (bind_js m f h)"
proof (cases "m h")
  case (Pair r h1)
  with assms(2) have mh: "m h = (r, h)" by simp
  with assms(1,3) have mh': "m h' = (r, h')" by (cases "m h'") simp
  show ?thesis
  proof (cases r)
    case (Inl e)
    with mh mh' show ?thesis by (simp add: bind_js_def)
  next
    case (Inr w)
    with mh mh' assms(4) [of w] show ?thesis by (simp add: bind_js_def)
  qed
qed

lemma member_step:
  assumes "agree h h' v" and "\<And>w. agree h h' w \<Longrightarrow> fst (f w h') = fst (f w h)"
  shows "fst (bind_js (get_member k v) f h') = fst (bind_js (get_member k v) f h)"
  by (rule bind_js_agree)
    (auto simp: get_member_frame intro: get_member_agree assms get_member_result_agree)

lemma first_step:
  assumes "agree h h' v" and "\<And>w. agree h h' w \<Longrightarrow> fst (f w h') = fst (f w h)"
  shows "fst (bind_js (get_first v) f h') = fst (bind_js (get_first v) f h)"
  by (rule bind_js_agree)
    (auto simp: get_first_frame intro: get_first_agree assms get_first_result_agree)

lemma number_step:
  assumes "reads_operand_only coerce" and "agree h h' v"
    and "\<And>n. fst (f n h') = fst (f n h)"
  shows "fst (bind_js (to_number coerce v) f h') = fst (bind_js (to_number coerce v) f h)"
  by (rule bind_js_agree) (auto simp: to_number_frame intro: to_number_agree assms)

lemma return_js_agree: "fst (return_js v h') = fst (return_js v h)"
  by (simp add: return_js_def)

lemma getMethodPrice_agree:
  assumes "reads_operand_only coerce" and "agree h h' method"
  shows "fst (getMethodPrice coerce method h') = fst (getMethodPrice coerce method h)"
proof (cases "truthy method")
  case False
  then show ?thesis by (simp add: getMethodPrice_def return_js_def)
next
  case True
  have rest: "fst (bind_js (get_member ''zoneRates'' method) (\<lambda>zoneRates.
          bind_js (get_first zoneRates) (\<lambda>zoneRate.
          bind_js (get_member ''shippingRates'' zoneRate) (\<lambda>shippingRates.
          bind_js (get_first shippingRates) (\<lambda>shippingRate.
          bind_js (get_member ''price'' shippingRate) (\<lambda>price.
          bind_js (get_member ''centAmount'' price) (\<lambda>centAmount.
          bind_js (to_number coerce centAmount) (\<lambda>n.
          return_js (Num (div100 n))))))))) h') =
        fst (bind_js (get_member ''zoneRates'' method) (\<lambda>zoneRates.
          bind_js (get_first zoneRates) (\<lambda>zoneRate.
          bind_js (get_member ''shippingRates'' zoneRate) (\<lambda>shippingRates.
          bind_js (get_first shippingRates) (\<lambda>shippingRate.
          bind_js (get_member ''price'' shippingRate) (\<lambda>price.
          bind_js (get_member ''centAmount'' price) (\<lambda>centAmount.
          bind_js (to_number coerce centAmount) (\<lambda>n.
          return_js (Num (div100 n))))))))) h)"
    by (intro member_step first_step number_step return_js_agree assms)
  show ?thesis
    unfolding getMethodPrice_def using True
    by (auto intro!: member_step assms(2) simp: return_js_agree rest)
qed

lemma reach_fixture: "a \<in> reach fixture (Ref 0) \<Longrightarrow> a \<le> 5"
proof (induction rule: reach.induct)
  case (root a)
  then show ?case by simp
next
  case (step a b)
  from step.IH have "a = 0 \<or> a = 1 \<or> a = 2 \<or> a = 3 \<or> a = 4 \<or> a = 5" by arith
  with step.hyps(2) show ?case by (auto simp: fixture_def)
qed

section \<open>Properties of the getters\<close>

text \<open>
  C1. The claim is that no getter handles errors: on null or malformed input each one
  throws or yields undefined. That fails for \<open>getMethodPrice\<close>, whose guard returns
  null. As amended, for every input and every store:
  \<^item> \<open>getMethodName\<close> and \<open>getMethodDescription\<close> throw a TypeError on null and on
    undefined, and on anything else return what the input holds under name or
    description: the property of an object that has it, and undefined for an object
    without it, an array, a string, a number or a boolean;
  \<^item> \<open>getMethodId\<close> does the same for id, except that it returns undefined on null and
    on undefined;
  \<^item> \<open>getShippingMethods\<close> returns its input and \<open>isMethodDefault\<close> returns false;
  \<^item> \<open>getMethodPrice\<close> returns null when the method is falsy or holds no truthy
    zoneRates, whatever else it holds; past that guard it throws a TypeError when
    zoneRates[0], that zone rate's shippingRates, shippingRates[0] or that shipping
    rate's price is null or undefined, or when the conversion of centAmount to a number
    throws; otherwise it returns centAmount, converted to a number, divided by 100 (NaN
    when centAmount is undefined).
\<close>

theorem getters_on_any_input:
  "getShippingMethods method h = (Inr method, h) \<and>
   isMethodDefault method h = (Inr (Boolean False), h) \<and>
   getMethodId method h =
     (Inr (if nullish method then Undefined else held h method ''id''), h) \<and>
   getMethodName method h =
     (if nullish method then (Inl TypeError, h) else (Inr (held h method ''name''), h)) \<and>
   getMethodDescription method h =
     (if nullish method then (Inl TypeError, h)
      else (Inr (held h method ''description''), h)) \<and>
   getMethodPrice coerce method h =
     (let zoneRates = held h method ''zoneRates'';
          zoneRate = held_first h zoneRates;
          shippingRates = held h zoneRate ''shippingRates'';
          shippingRate = held_first h shippingRates;
          price = held h shippingRate ''price'';
          centAmount = held h price ''centAmount''
      in if \<not> truthy method \<or> \<not> truthy zoneRates then (Inr Null, h)
         else if nullish zoneRate \<or> nullish shippingRates \<or> nullish shippingRate \<or>
                 nullish price then (Inl TypeError, h)
         else (case fst (to_number coerce centAmount h) of
                 Inl e \<Rightarrow> (Inl e, h)
               | Inr n \<Rightarrow> (Inr (Num (div100 n)), h)))"
proof -
  have "getMethodId method h =
      (Inr (if nullish method then Undefined else held h method ''id''), h)"
    by (auto simp: getMethodId_def get_member_held nullish_def return_js_def)
  then show ?thesis
    by (simp add: getShippingMethods_def isMethodDefault_def getMethodName_def
        getMethodDescription_def get_member_held return_js_def
        getMethodPrice_held)
qed

text \<open>
  The amended statement in the fixture: on null; on a number and on a string; on the
  method at address 18, which has an id and a name but neither description nor
  zoneRates; on the list at address 20; on the method at address 6, whose zoneRates is
  empty; on the method at address 21, whose price has no centAmount.
\<close>

theorem getters_on_any_input_witness:
  "getMethodName Null fixture = (Inl TypeError, fixture) \<and>
   getMethodDescription Null fixture = (Inl TypeError, fixture) \<and>
   getMethodId Null fixture = (Inr Undefined, fixture) \<and>
   getShippingMethods Null fixture = (Inr Null, fixture) \<and>
   isMethodDefault Null fixture = (Inr (Boolean False), fixture) \<and>
   getMethodPrice coerce_nan Null fixture = (Inr Null, fixture) \<and>
   getMethodName (Num (Finite 5)) fixture = (Inr Undefined, fixture) \<and>
   getMethodName (Str ''abc'') fixture = (Inr Undefined, fixture) \<and>
   getMethodPrice coerce_nan (Str ''abc'') fixture = (Inr Null, fixture) \<and>
   getMethodId (Ref 18) fixture = (Inr (Str ''m5''), fixture) \<and>
   getMethodName (Ref 18) fixture = (Inr (Str ''Pickup''), fixture) \<and>
   getMethodDescription (Ref 18) fixture = (Inr Undefined, fixture) \<and>
   getMethodPrice coerce_nan (Ref 18) fixture = (Inr Null, fixture) \<and>
   getMethodName (Ref 20) fixture = (Inr Undefined, fixture) \<and>
   getMethodPrice coerce_nan (Ref 20) fixture = (Inr Null, fixture) \<and>
   getMethodPrice coerce_nan (Ref 6) fixture = (Inl TypeError, fixture) \<and>
   getMethodPrice coerce_nan (Ref 21) fixture = (Inr (Num NaN), fixture)"
  using getters_on_any_input [of Null fixture coerce_nan]
    getters_on_any_input [of "Num (Finite 5)" fixture coerce_nan]
    getters_on_any_input [of "Str ''abc''" fixture coerce_nan]
    getters_on_any_input [of "Ref 18" fixture coerce_nan]
    getters_on_any_input [of "Ref 20" fixture coerce_nan]
    getters_on_any_input [of "Ref 6" fixture coerce_nan]
    getters_on_any_input [of "Ref 21" fixture coerce_nan]
  by (simp add: fixture_def nullish_def own_property_def return_js_def Let_def)

text \<open>
  The claim as stated fails: applied to null, and to an object without zoneRates,
  \<open>getMethodPrice\<close> neither throws nor yields undefined.
\<close>

theorem getMethodPrice_substitutes_null:
  "\<not> throws_or_undefined (getMethodPrice coerce_nan Null fixture) \<and>
   \<not> throws_or_undefined (getMethodPrice coerce_nan (Ref 11) fixture)"
  by (simp add: throws_or_undefined_def getMethodPrice_def bind_js_def fixture_def
      own_property_def return_js_def)

text \<open>
  C2. The claim is that on a well-formed shipping method (an object whose zoneRates is
  a non-empty list, whose first zone rate has a non-empty list of shippingRates, and
  whose first shipping rate has a price with centAmount \<open>c\<close>) \<open>getMethodPrice\<close> returns
  exactly \<open>c / 100\<close>. The division is one of doubles, so that fails wherever \<open>c / 100\<close>
  is not a double. As amended: on such a method, \<open>c\<close> being a finite number,
  \<open>getMethodPrice\<close> returns \<open>c\<close> divided by 100 as a double: a finite number that is a
  double nearest to \<open>c / 100\<close>, and exactly \<open>c / 100\<close> whenever \<open>c / 100\<close> is a double
  (centAmount 1000 yields 10).
\<close>

theorem getMethodPrice_well_formed:
  assumes "h m = Object ps" and "map_of ps ''zoneRates'' = Some (Ref z)"
    and "h z = Array (Ref zr # zrs)"
    and "h zr = Object qs" and "map_of qs ''shippingRates'' = Some (Ref s)"
    and "h s = Array (Ref sr # srs)"
    and "h sr = Object rs" and "map_of rs ''price'' = Some (Ref p)"
    and "h p = Object cs" and "map_of cs ''centAmount'' = Some (Num n)"
    and "finite_value n = Some c" and "is_double c"
  shows "getMethodPrice coerce (Ref m) h = (Inr (Num (div100 n)), h) \<and>
         (\<exists>r. finite_value (div100 n) = Some r \<and> nearest_double (c / 100) r \<and>
              (is_double (c / 100) \<longrightarrow> r = c / 100))"
proof -
  have "getMethodPrice coerce (Ref m) h = (Inr (Num (div100 n)), h)"
    using assms(1-10)
    by (simp add: getMethodPrice_def bind_js_def get_member_object get_first_array
        own_property_def return_js_def)
  moreover from div100_nearest [OF assms(11,12)]
  obtain r where "finite_value (div100 n) = Some r" and "nearest_double (c / 100) r"
    by blast
  ultimately show ?thesis by (blast dest: nearest_double_exact)
qed

text \<open>The method of the fixture: centAmount 1000 yields 10.\<close>

theorem getMethodPrice_well_formed_witness:
  "is_double 1000 \<and> is_double (1000 / 100) \<and>
   getMethodPrice coerce_nan (Ref 0) fixture = (Inr (Num (div100 (Finite 1000))), fixture) \<and>
   finite_value (div100 (Finite 1000)) = Some 10"
proof -
  have a: "is_double 1000" using is_double_int [of 1000] by simp
  have b: "is_double (1000 / 100)" using is_double_int [of 10] by simp
  have c: "finite_value (Finite 1000) = Some 1000" by simp
  from getMethodPrice_well_formed
    [of fixture 0 _ 1 2 "[]" _ 3 4 "[]" _ 5 _ "Finite 1000" 1000 coerce_nan, OF _ _ _ _ _ _ _ _ _ _ c a]
  have "getMethodPrice coerce_nan (Ref 0) fixture = (Inr (Num (div100 (Finite 1000))), fixture) \<and>
      (\<exists>r. finite_value (div100 (Finite 1000)) = Some r \<and> nearest_double (1000 / 100) r \<and>
           (is_double (1000 / 100) \<longrightarrow> r = 1000 / 100))"
    by (simp add: fixture_def)
  with a b show ?thesis by auto
qed

text \<open>
  The claim as stated fails: the method at address 12 is well formed, its centAmount is
  1, and \<open>getMethodPrice\<close> returns the double nearest to 1 / 100, which is not 1 / 100.
\<close>

theorem getMethodPrice_one_cent:
  "getMethodPrice coerce_nan (Ref 12) fixture =
     (Inr (Num (Finite (5764607523034235 / 576460752303423488))), fixture) \<and>
   Finite (5764607523034235 / 576460752303423488) \<noteq> Finite (1 / 100)"
  by (simp add: fixture_price_one_cent)

text \<open>
  C3. The getters are stateless and deterministic. Run in two stores that agree on the
  objects reachable from the argument, each of the six getters yields the same result
  (so equal inputs give equal results, and nothing outside the argument is read), and
  each leaves the store as it found it (nothing is written). For \<open>getMethodPrice\<close> this
  asks of the runtime's number conversion that it reads nothing but its operand.
\<close>

theorem getters_depend_on_argument_only:
  assumes "reads_operand_only coerce" and "agree h h' v"
  shows "fst (getShippingMethods v h') = fst (getShippingMethods v h) \<and>
         fst (getMethodId v h') = fst (getMethodId v h) \<and>
         fst (getMethodName v h') = fst (getMethodName v h) \<and>
         fst (getMethodDescription v h') = fst (getMethodDescription v h) \<and>
         fst (getMethodPrice coerce v h') = fst (getMethodPrice coerce v h) \<and>
         fst (isMethodDefault v h') = fst (isMethodDefault v h) \<and>
         snd (getShippingMethods v h) = h \<and>
         snd (getMethodId v h) = h \<and>
         snd (getMethodName v h) = h \<and>
         snd (getMethodDescription v h) = h \<and>
         snd (getMethodPrice coerce v h) = h \<and>
         snd (isMethodDefault v h) = h"
  using assms
  by (simp add: getShippingMethods_def getMethodId_def getMethodName_def
      getMethodDescription_def isMethodDefault_def getMethodPrice_frame
      getMethodPrice_agree get_member_agree get_member_frame return_js_def)

text \<open>
  Two stores that differ at address 6, which the method at address 0 does not reach: the
  price and the name read from the second store are those of the first.
\<close>

theorem getters_depend_on_argument_only_witness:
  "reads_operand_only coerce_nan \<and> agree fixture fixture_elsewhere (Ref 0) \<and>
   fixture_elsewhere 6 \<noteq> fixture 6 \<and>
   fst (getMethodPrice coerce_nan (Ref 0) fixture_elsewhere) = Inr (Num (Finite 10)) \<and>
   fst (getMethodName (Ref 0) fixture_elsewhere) = Inr (Str ''Standard'')"
proof -
  have a: "reads_operand_only coerce_nan"
    by (simp add: reads_operand_only_def coerce_nan_def)
  have b: "agree fixture fixture_elsewhere (Ref 0)"
    unfolding agree_def by (auto simp: fixture_elsewhere_def dest: reach_fixture)
  have c: "fst (getMethodPrice coerce_nan (Ref 0) fixture) = Inr (Num (Finite 10))"
    by (simp add: fixture_price)
  have d: "fst (getMethodName (Ref 0) fixture) = Inr (Str ''Standard'')"
    by (simp add: getMethodName_def fixture_def own_property_def return_js_def)
  have e: "fixture_elsewhere 6 \<noteq> fixture 6"
    by (simp add: fixture_elsewhere_def fixture_def)
  from getters_depend_on_argument_only [OF a b] a b c d e show ?thesis by simp
qed

text \<open>
  C4. No getter mutates what it is given: after a call of any of the six getters, on any
  argument, the store is the store before the call, so the method or list passed in, and
  every object reachable from it, is unchanged. This holds whether the call returns or
  throws.
\<close>

theorem getters_leave_store_unchanged:
  "snd (getShippingMethods methods h) = h \<and>
   snd (getMethodId method h) = h \<and>
   snd (getMethodName method h) = h \<and>
   snd (getMethodDescription method h) = h \<and>
   snd (getMethodPrice coerce method h) = h \<and>
   snd (isMethodDefault method h) = h"
  by (simp add: getShippingMethods_def getMethodId_def getMethodName_def
      getMethodDescription_def isMethodDefault_def getMethodPrice_frame
      get_member_frame return_js_frame)

text \<open>
  C5. The claim is that every getter returns a primitive or a small agnostic record, and
  that \<open>getMethodPrice\<close> returns a number whenever it returns. \<open>getShippingMethods\<close>
  returns the platform list it is given, and the guard of \<open>getMethodPrice\<close> returns null.
  As amended: whenever it returns, \<open>getMethodPrice\<close> returns a number or null and
  \<open>isMethodDefault\<close> returns the boolean false, both primitives; \<open>getMethodId\<close>,
  \<open>getMethodName\<close> and \<open>getMethodDescription\<close> return a primitive whenever the input
  holds a primitive or nothing under that name, and otherwise the very reference it
  holds there; \<open>getShippingMethods\<close> returns the value it was given, the platform list
  itself; and no getter builds a record: the store is left as it was.
\<close>

theorem getters_result_kinds:
  "(getMethodPrice coerce method h = (Inr v, h') \<longrightarrow> (is_number v \<or> v = Null) \<and> h' = h) \<and>
   (isMethodDefault method h = (Inr v, h') \<longrightarrow> v = Boolean False \<and> h' = h) \<and>
   (getMethodId method h = (Inr v, h') \<longrightarrow>
      (is_primitive (held h method ''id'') \<longrightarrow> is_primitive v) \<and>
      (\<not> is_primitive v \<longrightarrow> v = held h method ''id'') \<and> h' = h) \<and>
   (getMethodName method h = (Inr v, h') \<longrightarrow>
      (is_primitive (held h method ''name'') \<longrightarrow> is_primitive v) \<and>
      (\<not> is_primitive v \<longrightarrow> v = held h method ''name'') \<and> h' = h) \<and>
   (getMethodDescription method h = (Inr v, h') \<longrightarrow>
      (is_primitive (held h method ''description'') \<longrightarrow> is_primitive v) \<and>
      (\<not> is_primitive v \<longrightarrow> v = held h method ''description'') \<and> h' = h) \<and>
   (getShippingMethods method h = (Inr v, h') \<longrightarrow> v = method \<and> h' = h)"
proof -
  have price: "(is_number v \<or> v = Null) \<and> h' = h"
    if "getMethodPrice coerce method h = (Inr v, h')"
  proof -
    from that getMethodPrice_frame [of coerce "method" h] have "h' = h" by simp
    moreover from that have "is_number v \<or> v = Null"
      by (auto simp: getMethodPrice_def return_js_def split: if_splits dest!: bind_js_Inr)
    ultimately show ?thesis by simp
  qed
  have field: "(is_primitive (held h method k) \<longrightarrow> is_primitive v) \<and>
      (\<not> is_primitive v \<longrightarrow> v = held h method k) \<and> h' = h"
    if "get_member k method h = (Inr v, h')" for k
    using that by (auto simp: get_member_held split: if_splits)
  have ident: "(is_primitive (held h method ''id'') \<longrightarrow> is_primitive v) \<and>
      (\<not> is_primitive v \<longrightarrow> v = held h method ''id'') \<and> h' = h"
    if "getMethodId method h = (Inr v, h')"
    using that
    by (auto simp: getMethodId_def get_member_held return_js_def nullish_def split: if_splits)
  show ?thesis
    using price field [of "''name''"] field [of "''description''"] ident
    by (auto simp: isMethodDefault_def getShippingMethods_def getMethodName_def
        getMethodDescription_def return_js_def)
qed

text \<open>
  The amended statement in the fixture: the price, the id and the name of the method at
  address 0 are primitives, and the list at address 20 comes back as it is.
\<close>

theorem getters_result_kinds_witness:
  "getMethodPrice coerce_nan (Ref 0) fixture = (Inr (Num (Finite 10)), fixture) \<and>
   is_number (Num (Finite 10)) \<and>
   getMethodId (Ref 0) fixture = (Inr (Str ''m1''), fixture) \<and>
   is_primitive (held fixture (Ref 0) ''id'') \<and> is_primitive (Str ''m1'') \<and>
   getShippingMethods (Ref 20) fixture = (Inr (Ref 20), fixture)"
proof -
  have p: "getMethodPrice coerce_nan (Ref 0) fixture = (Inr (Num (Finite 10)), fixture)"
    by (rule fixture_price)
  have i: "getMethodId (Ref 0) fixture = (Inr (Str ''m1''), fixture)"
    by (simp add: getMethodId_def fixture_def own_property_def return_js_def)
  have s: "getShippingMethods (Ref 20) fixture = (Inr (Ref 20), fixture)"
    by (simp add: getShippingMethods_def return_js_def)
  have f: "is_primitive (held fixture (Ref 0) ''id'')"
    by (simp add: fixture_def own_property_def)
  from getters_result_kinds [of coerce_nan "Ref 0" fixture "Num (Finite 10)" fixture]
    getters_result_kinds [of coerce_nan "Ref 0" fixture "Str ''m1''" fixture]
    getters_result_kinds [of coerce_nan "Ref 20" fixture "Ref 20" fixture]
    p i s f
  show ?thesis by simp
qed

text \<open>
  The claim as stated fails twice: \<open>getShippingMethods\<close> returns the list at address 20,
  a reference to a platform array, neither a primitive nor a record; and on the null
  method \<open>getMethodPrice\<close> returns null, which is not a number.
\<close>

theorem getters_result_kinds_counterexample:
  "getShippingMethods (Ref 20) fixture = (Inr (Ref 20), fixture) \<and>
   \<not> primitive_or_record fixture (Ref 20) \<and>
   getMethodPrice coerce_nan Null fixture = (Inr Null, fixture) \<and> \<not> is_number Null"
  by (simp add: getShippingMethods_def getMethodPrice_def return_js_def
      primitive_or_record_def fixture_def)

text \<open>
  C6. On a method that is an object, \<open>getMethodId\<close>, \<open>getMethodName\<close> and
  \<open>getMethodDescription\<close> return the object's id, name and description property
  (undefined when the object has none); on null and on undefined \<open>getMethodId\<close> returns
  undefined instead of throwing.
\<close>

theorem getters_on_object_fields:
  assumes "h a = Object ps"
  shows "getMethodId (Ref a) h = (Inr (own_property ps ''id''), h) \<and>
         getMethodId Null h = (Inr Undefined, h) \<and>
         getMethodId Undefined h = (Inr Undefined, h) \<and>
         getMethodName (Ref a) h = (Inr (own_property ps ''name''), h) \<and>
         getMethodDescription (Ref a) h = (Inr (own_property ps ''description''), h)"
  using assms
  by (simp add: getMethodId_def getMethodName_def getMethodDescription_def return_js_def)

text \<open>The three fields of the method of the fixture.\<close>

theorem getters_on_object_fields_witness:
  "getMethodId (Ref 0) fixture = (Inr (Str ''m1''), fixture) \<and>
   getMethodId Null fixture = (Inr Undefined, fixture) \<and>
   getMethodId Undefined fixture = (Inr Undefined, fixture) \<and>
   getMethodName (Ref 0) fixture = (Inr (Str ''Standard''), fixture) \<and>
   getMethodDescription (Ref 0) fixture = (Inr (Str ''Three days''), fixture)"
  using getters_on_object_fields [of fixture 0]
  by (simp add: fixture_def own_property_def)

text \<open>
  C7. The guard of \<open>getMethodPrice\<close> does not make it total. A method object whose
  zoneRates is an empty list, or whose first zone rate has an empty list of
  shippingRates, passes the guard (the method and its zoneRates are truthy), and the
  access that follows throws a TypeError.
\<close>

theorem getMethodPrice_guard_not_total:
  assumes "h m = Object ps" and "map_of ps ''zoneRates'' = Some (Ref z)"
    and "h z = Array [] \<or>
         (\<exists>zr zrs qs s. h z = Array (Ref zr # zrs) \<and> h zr = Object qs \<and>
            map_of qs ''shippingRates'' = Some (Ref s) \<and> h s = Array [])"
  shows "truthy (Ref m) \<and> truthy (own_property ps ''zoneRates'') \<and>
         getMethodPrice coerce (Ref m) h = (Inl TypeError, h)"
  using assms
  by (auto simp: getMethodPrice_def bind_js_def get_member_object get_first_array
      own_property_def return_js_def throw_js_def)

text \<open>Both shapes in the fixture: the method at address 6 and the method at address 8.\<close>

theorem getMethodPrice_guard_not_total_witness:
  "getMethodPrice coerce_nan (Ref 6) fixture = (Inl TypeError, fixture) \<and>
   getMethodPrice coerce_nan (Ref 8) fixture = (Inl TypeError, fixture)"
proof -
  have a: "fixture 6 = Object [(''id'', Str ''m2''), (''zoneRates'', Ref 7)]"
    and b: "fixture 8 = Object [(''id'', Str ''m3''), (''zoneRates'', Ref 9)]"
    and c: "fixture 7 = Array []"
    and d: "fixture 9 = Array [Ref 10]"
    and e: "fixture 10 = Object [(''shippingRates'', Ref 7)]"
    by (simp_all add: fixture_def)
  have "fixture 7 = Array [] \<or>
         (\<exists>zr zrs qs s. fixture 7 = Array (Ref zr # zrs) \<and> fixture zr = Object qs \<and>
            map_of qs ''shippingRates'' = Some (Ref s) \<and> fixture s = Array [])"
    using c by simp
  moreover have "fixture 9 = Array [] \<or>
         (\<exists>zr zrs qs s. fixture 9 = Array (Ref zr # zrs) \<and> fixture zr = Object qs \<and>
            map_of qs ''shippingRates'' = Some (Ref s) \<and> fixture s = Array [])"
    using c d e by simp
  ultimately show ?thesis
    using getMethodPrice_guard_not_total
        [of fixture 6 "[(''id'', Str ''m2''), (''zoneRates'', Ref 7)]" 7 coerce_nan]
      getMethodPrice_guard_not_total
        [of fixture 8 "[(''id'', Str ''m3''), (''zoneRates'', Ref 9)]" 9 coerce_nan]
      a b
    by simp
qed

text \<open>
  C8. \<open>isMethodDefault\<close> answers false whatever its argument and whatever the store, and
  leaves the store as it was: no method is ever reported as the default one.
\<close>

theorem isMethodDefault_always_false:
  "isMethodDefault method h = (Inr (Boolean False), h)"
  by (simp add: isMethodDefault_def return_js_def)

text \<open>
  C9. \<open>getShippingMethods\<close> is the identity: it returns the very value it was given (for a
  list, the same reference, not a copy), and the store, hence the content and order of
  the list, is untouched.
\<close>

theorem getShippingMethods_identity:
  "getShippingMethods methods h = (Inr methods, h)"
  by (simp add: getShippingMethods_def return_js_def)

end
